theory Spec2Isabelle
  imports Main
begin

section \<open>Per-window keyboard layout for Hyprland: the data model\<close>

text \<open>
  The program is the package \<^verbatim>\<open>hypr\<close> (\<^verbatim>\<open>hypr/hypr.go\<close>: the event socket client,
  the event parser and the layout discovery) and the command built on it (the tracker loop
  \<^verbatim>\<open>processHyprlandEvents\<close> and the retry loop of \<^verbatim>\<open>main\<close>).
  Strings are Go strings, modelled as byte lists; Go's \<^verbatim>\<open>int\<close> is modelled as \<open>int\<close>
  (no value in the program leaves a few decimal digits).
\<close>

record Event =
  Name :: string
  Args :: "string list"

record Keyboard =
  Layout :: string
  ActiveKeymap :: string
  Main :: bool
  KbName :: string  \<comment> \<open>the Go field \<^verbatim>\<open>Name\<close>; the program never reads it\<close>

record DevicesResponse =
  Keyboards :: "Keyboard list"

text \<open>
  Every \<^verbatim>\<open>fmt.Errorf\<close> of the two files is one constructor; a constructor with an
  \<open>error\<close> argument wraps its cause (\<^verbatim>\<open>%w\<close>), one with a string carries the layout
  short name formatted into the message (\<^verbatim>\<open>%s\<close>).
\<close>

datatype error =
    ErrClosed
  | NoInstance
  | UnknownUser
  | DialFailed
  | ReadFailed
  | UnexpectedFormat
  | HyprctlFailed
  | UnmarshalFailed
  | SwitchFailed string
  | ReadNameFailed string
  | UnmarshalNameFailed string
  | RestoreFailed
  | CouldNotConnect error
  | CouldNotDetect error
  | ReadEventFailed error
  | ActivateFailed
  | CouldNotOpenLogfile

text \<open>
  A Go call returning \<^verbatim>\<open>(T, error)\<close> either returns a value, returns an error value, or
  does not return because the runtime panics (an index out of range). The three are kept
  apart: \<open>Fail\<close> is an error the caller receives, \<open>Crash\<close> is the runtime panic.
\<close>

datatype 'a outcome = Return 'a | Fail error | Crash

section \<open>The event parser\<close>

subsection \<open>\<^verbatim>\<open>strings.Index\<close> and \<^verbatim>\<open>strings.Split\<close>\<close>

text \<open>
  \<^verbatim>\<open>strings.Index(s, sep)\<close> is the position of the first instance of \<open>sep\<close> in \<open>s\<close>
  (\<open>None\<close> for Go's \<open>-1\<close>).
\<close>

fun Index :: "string \<Rightarrow> string \<Rightarrow> nat option" where
  "Index [] sep = (if sep = [] then Some 0 else None)"
| "Index (c # cs) sep =
     (if take (length sep) (c # cs) = sep then Some 0 else map_option Suc (Index cs sep))"

lemma take_eq_length: "take n xs = ys \<Longrightarrow> length ys \<le> length xs"
  by auto

lemma Index_bound: "Index s sep = Some m \<Longrightarrow> m + length sep \<le> length s"
proof (induction s arbitrary: m)
  case Nil
  then show ?case by (simp split: if_splits)
next
  case (Cons c cs)
  show ?case
  proof (cases "take (length sep) (c # cs) = sep")
    case True
    then have "length sep \<le> length (c # cs)"
      by (rule take_eq_length)
    with True Cons.prems show ?thesis by simp
  next
    case False
    with Cons.prems obtain k where k: "Index cs sep = Some k" "m = Suc k"
      by auto
    from Cons.IH [OF k(1)] k(2) show ?thesis by simp
  qed
qed

text \<open>
  \<^verbatim>\<open>strings.Split(s, sep)\<close> follows the library's \<^verbatim>\<open>genSplit\<close>: cut at the first
  instance of \<open>sep\<close>, continue behind it, and the rest is the last field; a string without
  \<open>sep\<close> is the only field. With an empty \<open>sep\<close> the library cuts after every character
  (no call of the program passes one).
\<close>

function Split :: "string \<Rightarrow> string \<Rightarrow> string list" where
  "Split s sep =
     (if sep = [] then map (\<lambda>c. [c]) s
      else case Index s sep of
             None \<Rightarrow> [s]
           | Some m \<Rightarrow> take m s # Split (drop (m + length sep) s) sep)"
  by pat_completeness auto
termination
proof (relation "measure (\<lambda>(s, sep). length s)")
  show "wf (measure (\<lambda>(s, sep). length s))" by simp
next
  fix s sep :: string and m :: nat
  assume "sep \<noteq> []" and "Index s sep = Some m"
  then have "m + length sep \<le> length s" and "0 < length sep"
    by (simp_all add: Index_bound)
  then have "length (drop (m + length sep) s) < length s"
    by (simp del: length_greater_0_conv)
  then show "((drop (m + length sep) s, sep), (s, sep)) \<in> measure (\<lambda>(s, sep). length s)"
    by simp
qed

declare Split.simps [simp del]

subsection \<open>\<^verbatim>\<open>Client.ReadEvent\<close>\<close>

text \<open>
  The client holds the \<^verbatim>\<open>closed\<close> flag and the reader; the reader is the list of lines
  the socket still delivers, and \<^verbatim>\<open>ReadLine\<close> on the empty list is the read error
  (end of stream).
\<close>

record Client =
  closed :: bool
  reader :: "string list"

definition ReadEvent :: "Client \<Rightarrow> Event outcome \<times> Client" where
  "ReadEvent c =
     (if closed c then (Fail ErrClosed, c)
      else case reader c of
             [] \<Rightarrow> (Fail ReadFailed, c)
           | data # rest \<Rightarrow>
               (let c' = c\<lparr>reader := rest\<rparr>;
                    evtParts = Split data ''>>''
                in if length evtParts = 0 then (Fail UnexpectedFormat, c')
                   else if length evtParts \<le> 1 then (Crash, c')
                   else (Return \<lparr>Name = evtParts ! 0,
                                  Args = Split (evtParts ! 1) '',''\<rparr>, c')))"

text \<open>
  The older command (\<^verbatim>\<open>cmd/perwindowlayout/main.go\<close>) has a copy of the parser of its own,
  \<^verbatim>\<open>HyprlandSocket.ReadEvent\<close>, on a socket that is only the reader.
\<close>

definition HyprlandSocket_ReadEvent :: "string list \<Rightarrow> Event outcome \<times> string list" where
  "HyprlandSocket_ReadEvent hs =
     (case hs of
        [] \<Rightarrow> (Fail ReadFailed, hs)
      | data # rest \<Rightarrow>
          (let evtParts = Split data ''>>''
           in if length evtParts = 0 then (Fail UnexpectedFormat, rest)
              else if length evtParts \<le> 1 then (Crash, rest)
              else (Return \<lparr>Name = evtParts ! 0, Args = Split (evtParts ! 1) '',''\<rparr>, rest)))"

section \<open>The device controller\<close>

text \<open>
  \<^verbatim>\<open>hyprctl\<close> is an external program. It is a parameter of the model: a state machine
  over a state \<open>'w\<close> of its own, with the two commands the program runs.
  \<open>switchxkblayout i\<close> is \<^verbatim>\<open>hyprctl switchxkblayout all i\<close> and yields whether the command
  exited successfully; \<open>devices\<close> is \<^verbatim>\<open>hyprctl devices -j\<close> followed by
  \<^verbatim>\<open>json.Unmarshal\<close>: the command fails, or its output does not parse, or it is a
  \<^verbatim>\<open>DevicesResponse\<close>.
\<close>

datatype hyprctl_devices = ExecError | UnmarshalError | Devices DevicesResponse

record 'w hyprctl =
  switchxkblayout :: "int \<Rightarrow> 'w \<Rightarrow> bool \<times> 'w"
  devices :: "'w \<Rightarrow> hyprctl_devices \<times> 'w"

text \<open>
  What the program does to the outside is recorded in order: every controller command it
  runs and the warning it logs. The state of a run is the controller's state with this
  record.
\<close>

datatype effect = Switch int | Query | Warn

type_synonym 'w sys = "'w \<times> effect list"

definition SwitchXKBLayout :: "'w hyprctl \<Rightarrow> int \<Rightarrow> 'w sys \<Rightarrow> bool \<times> 'w sys" where
  "SwitchXKBLayout ctl layoutIdx s =
     (let (ok, w') = switchxkblayout ctl layoutIdx (fst s)
      in (ok, (w', snd s @ [Switch layoutIdx])))"

definition hyprctl_devices_j :: "'w hyprctl \<Rightarrow> 'w sys \<Rightarrow> hyprctl_devices \<times> 'w sys" where
  "hyprctl_devices_j ctl s =
     (let (r, w') = devices ctl (fst s) in (r, (w', snd s @ [Query])))"

definition slog_Warn :: "'w sys \<Rightarrow> 'w sys" where
  "slog_Warn s = (fst s, snd s @ [Warn])"

section \<open>Layout discovery: \<^verbatim>\<open>Client.ReadLayouts\<close>\<close>

text \<open>
  The loop over \<^verbatim>\<open>layoutsShorts\<close>, on the indexed list that \<^verbatim>\<open>range\<close> walks. The
  inner loop over the keyboards stops at the first one flagged main (\<open>find Main\<close>) and
  does nothing when there is none.
\<close>

fun scan ::
  "'w hyprctl \<Rightarrow> Keyboard \<Rightarrow> (nat \<times> string) list \<Rightarrow> string list \<Rightarrow> int \<Rightarrow> 'w sys
     \<Rightarrow> (string list \<times> int) outcome \<times> 'w sys" where
  "scan ctl mainKb [] result activeLayoutIdx s = (Return (result, activeLayoutIdx), s)"
| "scan ctl mainKb ((i, l) # rest) result activeLayoutIdx s =
     (let (ok, s1) = SwitchXKBLayout ctl (int i) s
      in if \<not> ok then (Fail (SwitchFailed l), s1)
         else let (out, s2) = hyprctl_devices_j ctl s1
              in case out of
                   ExecError \<Rightarrow> (Fail (ReadNameFailed l), s2)
                 | UnmarshalError \<Rightarrow> (Fail (UnmarshalNameFailed l), s2)
                 | Devices response \<Rightarrow>
                     (case find Main (Keyboards response) of
                        None \<Rightarrow> scan ctl mainKb rest result activeLayoutIdx s2
                      | Some kb \<Rightarrow>
                          scan ctl mainKb rest (result[i := ActiveKeymap kb])
                            (if ActiveKeymap kb = ActiveKeymap mainKb then int i
                             else activeLayoutIdx) s2))"

text \<open>
  \<^verbatim>\<open>response.Keyboards[0]\<close> is read before the loop that looks for the main keyboard:
  on an empty list the runtime panics.
\<close>

definition ReadLayouts :: "'w hyprctl \<Rightarrow> 'w sys \<Rightarrow> string list outcome \<times> 'w sys" where
  "ReadLayouts ctl s =
     (let (out, s1) = hyprctl_devices_j ctl s
      in case out of
           ExecError \<Rightarrow> (Fail HyprctlFailed, s1)
         | UnmarshalError \<Rightarrow> (Fail UnmarshalFailed, s1)
         | Devices response \<Rightarrow>
             (case Keyboards response of
                [] \<Rightarrow> (Crash, s1)
              | kb0 # _ \<Rightarrow>
                  (let mainKb = (case find Main (Keyboards response) of
                                   None \<Rightarrow> kb0 | Some kb \<Rightarrow> kb);
                       layoutsShorts = Split (Layout mainKb) '','';
                       result = replicate (length layoutsShorts) [];
                       (r, s2) = scan ctl mainKb (enumerate 0 layoutsShorts) result (- 1) s1
                   in case r of
                        Fail e \<Rightarrow> (Fail e, s2)
                      | Crash \<Rightarrow> (Crash, s2)
                      | Return (result', activeLayoutIdx) \<Rightarrow>
                          if activeLayoutIdx = - 1 then (Return result', slog_Warn s2)
                          else (let (ok, s3) = SwitchXKBLayout ctl activeLayoutIdx s2
                                in if \<not> ok then (Fail RestoreFailed, s3)
                                   else (Return result', s3)))))"

section \<open>The tracker: the event loop of \<^verbatim>\<open>processHyprlandEvents\<close>\<close>

text \<open>
  The local variables of the loop. \<^verbatim>\<open>layoutToIndex\<close> and \<^verbatim>\<open>layoutMap\<close> are Go maps;
  reading \<^verbatim>\<open>layoutToIndex\<close> at a missing key gives Go's zero value 0.
\<close>

record tracker =
  layoutMap :: "string \<rightharpoonup> int"
  currentWindowId :: string
  currentLayout :: int

definition defaultLayout :: int where
  "defaultLayout = 0"

definition initial_tracker :: tracker where
  "initial_tracker = \<lparr>layoutMap = Map.empty, currentWindowId = [], currentLayout = - 1\<rparr>"

definition map_index :: "(string \<rightharpoonup> int) \<Rightarrow> string \<Rightarrow> int" where
  "map_index m k = (case m k of None \<Rightarrow> 0 | Some v \<Rightarrow> v)"

definition make_layoutToIndex :: "string list \<Rightarrow> (string \<rightharpoonup> int)" where
  "make_layoutToIndex layouts =
     fold (\<lambda>(i, l) m. m(l \<mapsto> int i)) (enumerate 0 layouts) Map.empty"

text \<open>
  One turn of the \<^verbatim>\<open>switch\<close> on the event name. \<open>Return ()\<close> is the loop going on
  (\<^verbatim>\<open>continue\<close> or the end of the case), \<open>Fail\<close> is \<^verbatim>\<open>return fmt.Errorf(...)\<close>; the
  tracker returned with it holds the local variables as they are at that point.
  \<^verbatim>\<open>evt.Args[len(evt.Args)-1]\<close> panics on an empty argument list.
\<close>

definition on_event ::
  "'w hyprctl \<Rightarrow> (string \<rightharpoonup> int) \<Rightarrow> Event \<Rightarrow> tracker \<Rightarrow> 'w sys
     \<Rightarrow> unit outcome \<times> tracker \<times> 'w sys" where
  "on_event ctl layoutToIndex evt t s =
     (if Name evt = ''activelayout'' then
        (if currentWindowId t = [] then (Return (), t, s)
         else if Args evt = [] then (Crash, t, s)
         else (let t1 = t\<lparr>currentLayout := map_index layoutToIndex (last (Args evt))\<rparr>;
                   t2 = t1\<lparr>layoutMap := (layoutMap t1)(currentWindowId t1 \<mapsto> currentLayout t1)\<rparr>
               in (Return (), t2, s)))
      else if Name evt = ''activewindowv2'' then
        (if Args evt = [] then (Crash, t, s)
         else (let newWindowId = last (Args evt)
               in if currentWindowId t = newWindowId then (Return (), t, s)
                  else (let t1 = t\<lparr>currentWindowId := newWindowId\<rparr>;
                            windowLayout = (case layoutMap t1 (currentWindowId t1) of
                                              None \<Rightarrow> defaultLayout | Some v \<Rightarrow> v)
                        in if windowLayout = currentLayout t1 then (Return (), t1, s)
                           else (let (ok, s1) = SwitchXKBLayout ctl windowLayout s
                                 in if \<not> ok then (Fail ActivateFailed, t1, s1)
                                    else (Return (), t1, s1)))))
      else (Return (), t, s))"

lemma ReadEvent_consumes:
  "ReadEvent c = (Return evt, c') \<Longrightarrow> length (reader c') < length (reader c)"
  by (auto simp: ReadEvent_def Let_def split: if_splits list.splits)

text \<open>
  The \<^verbatim>\<open>for\<close> loop. It has no exit but \<^verbatim>\<open>return err\<close> (and a panic), so it ends when
  the stream does or a command fails. \<open>resetRetryCount\<close> is the callback of \<^verbatim>\<open>main\<close>,
  acting on the state \<open>'r\<close> that \<^verbatim>\<open>main\<close> keeps; it runs after every event read
  without error, before the event is looked at.
\<close>

function event_loop ::
  "'w hyprctl \<Rightarrow> ('r \<Rightarrow> 'r) \<Rightarrow> (string \<rightharpoonup> int) \<Rightarrow> Client \<Rightarrow> tracker \<Rightarrow> 'r \<Rightarrow> 'w sys
     \<Rightarrow> unit outcome \<times> tracker \<times> 'r \<times> 'w sys" where
  "event_loop ctl resetRetryCount layoutToIndex c t r s =
     (case ReadEvent c of
        (Fail e, c') \<Rightarrow> (Fail (ReadEventFailed e), t, r, s)
      | (Crash, c') \<Rightarrow> (Crash, t, r, s)
      | (Return evt, c') \<Rightarrow>
          (case on_event ctl layoutToIndex evt t s of
             (Return u, t', s') \<Rightarrow>
               event_loop ctl resetRetryCount layoutToIndex c' t' (resetRetryCount r) s'
           | (Fail e, t', s') \<Rightarrow> (Fail e, t', resetRetryCount r, s')
           | (Crash, t', s') \<Rightarrow> (Crash, t', resetRetryCount r, s')))"
  by pat_completeness auto
termination
  by (relation "measure (\<lambda>(ctl, reset, l2i, c, t, r, s). length (reader c))")
     (auto dest: ReadEvent_consumes [OF sym])

declare event_loop.simps [simp del]

section \<open>Connecting: \<^verbatim>\<open>NewClient\<close>\<close>

text \<open>
  What \<^verbatim>\<open>NewClient\<close> reads from the process environment: the variable
  \<^verbatim>\<open>HYPRLAND_INSTANCE_SIGNATURE\<close> (if set), the uid of \<^verbatim>\<open>user.Current()\<close> (if it is
  known), and the socket: \<^verbatim>\<open>net.Dial\<close> on a path fails or gives the lines of the stream.
\<close>

record os_env =
  HYPRLAND_INSTANCE_SIGNATURE :: "string option"
  currentUser_Uid :: "string option"
  net_Dial :: "string \<Rightarrow> string list option"

definition NewClient :: "os_env \<Rightarrow> Client outcome" where
  "NewClient env =
     (case HYPRLAND_INSTANCE_SIGNATURE env of
        None \<Rightarrow> Fail NoInstance
      | Some sign \<Rightarrow>
          (case currentUser_Uid env of
             None \<Rightarrow> Fail UnknownUser
           | Some uid \<Rightarrow>
               (let socketPath = ''/run/user/'' @ uid @ ''/hypr/'' @ sign @ ''/.socket2.sock''
                in case net_Dial env socketPath of
                     None \<Rightarrow> Fail DialFailed
                   | Some lines \<Rightarrow> Return \<lparr>closed = False, reader = lines\<rparr>)))"

section \<open>One pipeline attempt: \<^verbatim>\<open>processHyprlandEvents\<close>\<close>

definition processHyprlandEvents ::
  "'w hyprctl \<Rightarrow> ('r \<Rightarrow> 'r) \<Rightarrow> os_env \<Rightarrow> 'r \<Rightarrow> 'w sys \<Rightarrow> unit outcome \<times> 'r \<times> 'w sys" where
  "processHyprlandEvents ctl resetRetryCount env r s =
     (case NewClient env of
        Fail e \<Rightarrow> (Fail (CouldNotConnect e), r, s)
      | Crash \<Rightarrow> (Crash, r, s)
      | Return client \<Rightarrow>
          (let (ls, s1) = ReadLayouts ctl s
           in case ls of
                Fail e \<Rightarrow> (Fail (CouldNotDetect e), r, s1)
              | Crash \<Rightarrow> (Crash, r, s1)
              | Return layouts \<Rightarrow>
                  (let layoutToIndex = make_layoutToIndex layouts;
                       (out, t', r', s') =
                          event_loop ctl resetRetryCount layoutToIndex client
                            initial_tracker r s1
                   in (out, r', s'))))"

section \<open>The retry loop of \<^verbatim>\<open>main\<close>\<close>

text \<open>
  \<^verbatim>\<open>time.Duration\<close> counts nanoseconds.
\<close>

definition Millisecond :: int where
  "Millisecond = 1000000"

definition Second :: int where
  "Second = 1000 * Millisecond"

definition retryWait :: "int list" where
  "retryWait = [500 * Millisecond, Second, 2 * Second, 4 * Second]"

definition resetRetry :: "int \<Rightarrow> int" where
  "resetRetry retry = 0"

text \<open>
  \<^verbatim>\<open>main\<close> never returns: it ends with a panic or goes on. The model runs it over the
  attempts that the outside allows: one environment and one controller state for each call
  of \<^verbatim>\<open>processHyprlandEvents\<close>, in order. It yields the waits made (\<^verbatim>\<open>time.After\<close>) and
  how it stands: \<open>Panicked err\<close> is \<^verbatim>\<open>panic(err)\<close>, \<open>Crashed\<close> a runtime panic in the
  attempt, and \<open>Running retry\<close> is the loop about to start the next attempt, when the list
  is used up.
\<close>

datatype main_status = Panicked error | Crashed | Running int

fun main_loop :: "'w hyprctl \<Rightarrow> (os_env \<times> 'w) list \<Rightarrow> int \<Rightarrow> int list \<times> main_status" where
  "main_loop ctl [] retry = ([], Running retry)"
| "main_loop ctl ((env, w) # rest) retry =
     (case processHyprlandEvents ctl resetRetry env retry (w, []) of
        (Return u, retry', s') \<Rightarrow> main_loop ctl rest retry'
      | (Crash, retry', s') \<Rightarrow> ([], Crashed)
      | (Fail err, retry', s') \<Rightarrow>
          if retry' \<ge> int (length retryWait) then ([], Panicked err)
          else if retry' < 0 then ([], Crashed)
          else (let (waits, st) = main_loop ctl rest (retry' + 1)
                in (retryWait ! nat retry' # waits, st)))"

definition main :: "'w hyprctl \<Rightarrow> bool \<Rightarrow> (os_env \<times> 'w) list \<Rightarrow> int list \<times> main_status" where
  "main ctl logfile_opens attempts =
     (if \<not> logfile_opens then ([], Panicked CouldNotOpenLogfile)
      else main_loop ctl attempts 0)"

section \<open>A controller to run the program on\<close>

text \<open>
  A keyboard with the comma-separated short names \<open>shorts\<close> and one keymap name for each
  index; the controller's state is the active index. Switching to an index without a name
  fails and changes nothing. The one keyboard it reports is flagged main or not, as \<open>mn\<close>
  says.
\<close>

definition sim_hyprctl :: "string \<Rightarrow> string list \<Rightarrow> bool \<Rightarrow> nat hyprctl" where
  "sim_hyprctl shorts names mn =
     \<lparr>switchxkblayout = (\<lambda>i w. if 0 \<le> i \<and> i < int (length names) then (True, nat i)
                                else (False, w)),
      devices = (\<lambda>w. (Devices \<lparr>Keyboards =
                   [\<lparr>Layout = shorts, ActiveKeymap = names ! w, Main = mn,
                     KbName = ''kbd''\<rparr>]\<rparr>, w))\<rparr>"

text \<open>A controller that reports no keyboard at all (none is attached).\<close>

definition no_keyboards_hyprctl :: "unit hyprctl" where
  "no_keyboards_hyprctl =
     \<lparr>switchxkblayout = (\<lambda>i w. (True, w)),
      devices = (\<lambda>w. (Devices \<lparr>Keyboards = []\<rparr>, w))\<rparr>"

text \<open>A keyboard with the two layouts \<^verbatim>\<open>en\<close> and \<^verbatim>\<open>us\<close>, named as their short names.\<close>

definition en_us_hyprctl :: "nat hyprctl" where
  "en_us_hyprctl = sim_hyprctl ''en,us'' [''en'', ''us''] True"

text \<open>
  Two process environments: one without \<^verbatim>\<open>HYPRLAND_INSTANCE_SIGNATURE\<close>, and one of a
  running session whose socket delivers the given lines.
\<close>

definition no_instance_env :: os_env where
  "no_instance_env =
     \<lparr>HYPRLAND_INSTANCE_SIGNATURE = None, currentUser_Uid = Some ''1000'',
      net_Dial = (\<lambda>path. None)\<rparr>"


text \<open>The event lines of the end-to-end example of the specification.\<close>

definition focus_events :: "string list" where
  "focus_events =
     [''activewindowv2>>W1'', ''activelayout>>us'', ''activewindowv2>>W2'',
      ''activewindowv2>>W1'']"


section \<open>What a run is observed by\<close>

text \<open>The effects recorded when the event loop has returned.\<close>

definition commands_issued :: "unit outcome \<times> tracker \<times> 'r \<times> 'w sys \<Rightarrow> effect list" where
  "commands_issued run = snd (snd (snd (snd run)))"


text \<open>
  The effects of the discovery loop over the indices from \<open>j\<close> up to \<open>n\<close>: a switch and
  a query for each. \<open>scan_idx\<close> is the value of \<^verbatim>\<open>activeLayoutIdx\<close> after the loop has
  seen the keymap names \<open>nms\<close> at the indices from \<open>j\<close> on: the last index whose name is
  \<open>key\<close>, the value before when there is none.
\<close>

definition scan_commands :: "nat \<Rightarrow> nat \<Rightarrow> effect list" where
  "scan_commands j n = concat (map (\<lambda>i. [Switch (int i), Query]) [j..<n])"

fun scan_idx :: "string \<Rightarrow> nat \<Rightarrow> string list \<Rightarrow> int \<Rightarrow> int" where
  "scan_idx key j [] idx = idx"
| "scan_idx key j (nm # nms) idx = scan_idx key (Suc j) nms (if nm = key then int j else idx)"

section \<open>The parser as the specification words it\<close>

text \<open>
  The specification cuts a line at the first \<^verbatim>\<open>>>\<close> only: the name is the text before
  it, and all the text after it is split at the commas. The two halves of a string at the
  first instance of a separator, and the parser put in these words:
\<close>

definition before_first :: "string \<Rightarrow> string \<Rightarrow> string" where
  "before_first s sep = (case Index s sep of None \<Rightarrow> s | Some m \<Rightarrow> take m s)"

definition after_first :: "string \<Rightarrow> string \<Rightarrow> string" where
  "after_first s sep = (case Index s sep of None \<Rightarrow> [] | Some m \<Rightarrow> drop (m + length sep) s)"

definition parse_as_specified :: "string \<Rightarrow> Event" where
  "parse_as_specified line =
     \<lparr>Name = before_first line ''>>'', Args = Split (after_first line ''>>'') '',''\<rparr>"

section \<open>Properties of the parser\<close>

text \<open>
  \<open>Index\<close> is the first instance: the separator stands at the position found and at no
  earlier one, and nowhere when none is found.
\<close>

lemma Index_first:
  "Index s sep = Some m \<Longrightarrow>
     take (length sep) (drop m s) = sep \<and> (\<forall>k<m. take (length sep) (drop k s) \<noteq> sep)"
proof (induction s arbitrary: m)
  case Nil
  then show ?case by (simp split: if_splits)
next
  case (Cons c cs)
  show ?case
  proof (cases "take (length sep) (c # cs) = sep")
    case True
    with Cons.prems show ?thesis by simp
  next
    case False
    with Cons.prems obtain k where k: "Index cs sep = Some k" "m = Suc k"
      by auto
    from Cons.IH [OF k(1)] have ih: "take (length sep) (drop k cs) = sep"
      "\<forall>j<k. take (length sep) (drop j cs) \<noteq> sep" by simp_all
    show ?thesis
    proof (intro conjI allI impI)
      show "take (length sep) (drop m (c # cs)) = sep" using ih(1) k(2) by simp
    next
      fix j assume "j < m"
      show "take (length sep) (drop j (c # cs)) \<noteq> sep"
      proof (cases j)
        case 0
        with False show ?thesis by simp
      next
        case (Suc j')
        with \<open>j < m\<close> k(2) have "j' < k" by simp
        with ih(2) Suc show ?thesis by simp
      qed
    qed
  qed
qed

lemma Index_None:
  "Index s sep = None \<Longrightarrow> take (length sep) (drop k s) \<noteq> sep"
proof (induction s arbitrary: k)
  case Nil
  then show ?case by (auto split: if_splits)
next
  case (Cons c cs)
  then have nz: "take (length sep) (c # cs) \<noteq> sep" and n: "Index cs sep = None"
    by (auto split: if_splits)
  show ?case
  proof (cases k)
    case 0
    with nz show ?thesis by simp
  next
    case (Suc k')
    with Cons.IH [OF n, of k'] show ?thesis by simp
  qed
qed

lemma Split_no_sep: "sep \<noteq> [] \<Longrightarrow> Index s sep = None \<Longrightarrow> Split s sep = [s]"
  by (simp add: Split.simps)

lemma Split_sep:
  "sep \<noteq> [] \<Longrightarrow> Index s sep = Some m \<Longrightarrow>
     Split s sep = take m s # Split (drop (m + length sep) s) sep"
  by (subst Split.simps) simp

lemma Split_not_Nil: "sep \<noteq> [] \<Longrightarrow> Split s sep \<noteq> []"
  by (subst Split.simps) (simp split: option.split)

lemma Split_hd: "sep \<noteq> [] \<Longrightarrow> Split s sep ! 0 = before_first s sep"
  by (subst Split.simps) (simp add: before_first_def split: option.split)

lemma Split_second:
  "sep \<noteq> [] \<Longrightarrow> Index s sep \<noteq> None \<Longrightarrow>
     length (Split s sep) > 1 \<and> Split s sep ! 1 = before_first (after_first s sep) sep"
  using Split_hd [of sep "after_first s sep"] Split_not_Nil [of sep "after_first s sep"]
  by (auto simp: Split_sep after_first_def)

text \<open>
  A line without the delimiter is one field, so the length test of \<open>ReadEvent\<close> (for no
  field at all) lets it pass and the read of the second field panics.
\<close>

lemma ReadEvent_without_delimiter:
  "\<not> closed c \<Longrightarrow> reader c = line # rest \<Longrightarrow> Index line ''>>'' = None \<Longrightarrow>
     ReadEvent c = (Crash, c\<lparr>reader := rest\<rparr>)"
  by (simp add: ReadEvent_def Split_no_sep)

text \<open>
  C2. The claim: a line without \<^verbatim>\<open>>>\<close> makes the parser return an error value and not
  crash. On the code the line \<^verbatim>\<open>hello\<close> is a runtime panic (index out of range at
  \<^verbatim>\<open>evtParts[1]\<close>): no error is returned, in the package and in the older copy alike.
\<close>

theorem ReadEvent_no_delimiter_crashes:
  "ReadEvent \<lparr>closed = False, reader = [''hello'']\<rparr> = (Crash, \<lparr>closed = False, reader = []\<rparr>)
   \<and> HyprlandSocket_ReadEvent [''hello''] = (Crash, [])"
  by (simp add: ReadEvent_def HyprlandSocket_ReadEvent_def Split.simps)

text \<open>
  C4, as the code has it. For every line with a \<^verbatim>\<open>>>\<close> the parser returns the event whose
  name is the text before the first \<^verbatim>\<open>>>\<close> and whose arguments are the text between the
  first \<^verbatim>\<open>>>\<close> and the next one (the end of the line when there is no other), split at
  the commas; \<^verbatim>\<open>NAME>>A,B,C\<close> gives the name \<^verbatim>\<open>NAME\<close> and the arguments \<^verbatim>\<open>A\<close>,
  \<^verbatim>\<open>B\<close>, \<^verbatim>\<open>C\<close>, and \<^verbatim>\<open>NAME>>\<close> gives the one argument \<^verbatim>\<open>""\<close>.
\<close>

theorem ReadEvent_parse:
  "(\<not> closed c \<and> reader c = line # rest \<and> Index line ''>>'' \<noteq> None \<longrightarrow>
      ReadEvent c =
        (Return \<lparr>Name = before_first line ''>>'',
                 Args = Split (before_first (after_first line ''>>'') ''>>'') '',''\<rparr>,
         c\<lparr>reader := rest\<rparr>))
   \<and> fst (ReadEvent \<lparr>closed = False, reader = [''NAME>>A,B,C'']\<rparr>) =
       Return \<lparr>Name = ''NAME'', Args = [''A'', ''B'', ''C'']\<rparr>
   \<and> fst (ReadEvent \<lparr>closed = False, reader = [''NAME>>'']\<rparr>) =
       Return \<lparr>Name = ''NAME'', Args = [[]]\<rparr>"
proof (intro conjI impI)
  assume a: "\<not> closed c \<and> reader c = line # rest \<and> Index line ''>>'' \<noteq> None"
  then have "length (Split line ''>>'') > 1"
    and "Split line ''>>'' ! 1 = before_first (after_first line ''>>'') ''>>''"
    using Split_second [of "''>>''" line] by simp_all
  with a show "ReadEvent c =
        (Return \<lparr>Name = before_first line ''>>'',
                 Args = Split (before_first (after_first line ''>>'') ''>>'') '',''\<rparr>,
         c\<lparr>reader := rest\<rparr>)"
    using Split_hd [of "''>>''" line] by (simp add: ReadEvent_def Let_def Split_not_Nil)
next
  show "fst (ReadEvent \<lparr>closed = False, reader = [''NAME>>A,B,C'']\<rparr>) =
       Return \<lparr>Name = ''NAME'', Args = [''A'', ''B'', ''C'']\<rparr>"
    by (simp add: ReadEvent_def Split.simps)
next
  show "fst (ReadEvent \<lparr>closed = False, reader = [''NAME>>'']\<rparr>) =
       Return \<lparr>Name = ''NAME'', Args = [[]]\<rparr>"
    by (simp add: ReadEvent_def Split.simps)
qed

text \<open>The theorem at a line with two delimiters, followed by another line.\<close>

theorem ReadEvent_parse_witness:
  "ReadEvent \<lparr>closed = False, reader = [''activewindow>>kitty,a>>b'', ''x'']\<rparr> =
     (Return \<lparr>Name = ''activewindow'', Args = [''kitty'', ''a'']\<rparr>,
      \<lparr>closed = False, reader = [''x'']\<rparr>)"
proof -
  have "Index ''activewindow>>kitty,a>>b'' ''>>'' \<noteq> None" by simp
  then show ?thesis
    using ReadEvent_parse [of "\<lparr>closed = False, reader = [''activewindow>>kitty,a>>b'', ''x'']\<rparr>"
        "''activewindow>>kitty,a>>b''" "[''x'']"]
    by (simp add: before_first_def after_first_def Split.simps)
qed

text \<open>
  C4 as claimed (the arguments are all the text after the first \<^verbatim>\<open>>>\<close>, split at the
  commas) fails where the line has a second \<^verbatim>\<open>>>\<close>: the parser drops the second
  delimiter and what follows it.
\<close>

theorem ReadEvent_second_delimiter_counterexample:
  "fst (ReadEvent \<lparr>closed = False, reader = [''activewindow>>kitty,a>>b'']\<rparr>) =
     Return \<lparr>Name = ''activewindow'', Args = [''kitty'', ''a'']\<rparr>
   \<and> parse_as_specified ''activewindow>>kitty,a>>b'' =
     \<lparr>Name = ''activewindow'', Args = [''kitty'', ''a>>b'']\<rparr>"
  by (simp add: ReadEvent_def parse_as_specified_def before_first_def after_first_def Split.simps)

section \<open>Properties of the discovery\<close>

lemma ReadLayouts_no_keyboards:
  "fst (devices ctl (fst s)) = Devices \<lparr>Keyboards = []\<rparr> \<Longrightarrow> fst (ReadLayouts ctl s) = Crash"
  by (simp add: ReadLayouts_def hyprctl_devices_j_def split_beta)

text \<open>
  C9. The claim: whatever the controller answers, an empty keyboard list included, the
  discovery succeeds or returns an error, and never crashes. On the code the first answer
  with an empty list is a runtime panic (index out of range at
  \<^verbatim>\<open>response.Keyboards[0]\<close>).
\<close>

theorem ReadLayouts_empty_device_list_crashes:
  "ReadLayouts no_keyboards_hyprctl ((), []) = (Crash, ((), [Query]))"
  by (simp add: ReadLayouts_def hyprctl_devices_j_def no_keyboards_hyprctl_def)

text \<open>The two controller calls, written out.\<close>

lemma SwitchXKBLayout_eq:
  "SwitchXKBLayout ctl i s =
     (fst (switchxkblayout ctl i (fst s)),
      (snd (switchxkblayout ctl i (fst s)), snd s @ [Switch i]))"
  by (simp add: SwitchXKBLayout_def split_beta)

lemma hyprctl_devices_j_eq:
  "hyprctl_devices_j ctl s =
     (fst (devices ctl (fst s)), (snd (devices ctl (fst s)), snd s @ [Query]))"
  by (simp add: hyprctl_devices_j_def split_beta)

text \<open>
  One turn of the discovery loop, when the answer to the query has a keyboard flagged main
  and when it has none.
\<close>

lemma scan_commands_step: "scan_commands j (Suc (j + n)) = [Switch (int j), Query] @ scan_commands (Suc j) (Suc (j + n))"
  by (simp add: scan_commands_def upt_conv_Cons)

lemma scan_step_main:
  assumes "fst (switchxkblayout ctl (int i) (fst s))"
    and "fst (devices ctl (snd (switchxkblayout ctl (int i) (fst s)))) = Devices resp"
    and "find Main (Keyboards resp) = Some kb"
  shows "scan ctl mainKb ((i, l) # rest) res idx s =
     scan ctl mainKb rest (res[i := ActiveKeymap kb])
       (if ActiveKeymap kb = ActiveKeymap mainKb then int i else idx)
       (snd (devices ctl (snd (switchxkblayout ctl (int i) (fst s)))),
        snd s @ [Switch (int i), Query])"
  using assms by (simp add: SwitchXKBLayout_eq hyprctl_devices_j_eq)

lemma scan_step_no_main:
  assumes "fst (switchxkblayout ctl (int i) (fst s))"
    and "fst (devices ctl (snd (switchxkblayout ctl (int i) (fst s)))) = Devices resp"
    and "find Main (Keyboards resp) = None"
  shows "scan ctl mainKb ((i, l) # rest) res idx s =
     scan ctl mainKb rest res idx
       (snd (devices ctl (snd (switchxkblayout ctl (int i) (fst s)))),
        snd s @ [Switch (int i), Query])"
  using assms by (simp add: SwitchXKBLayout_eq hyprctl_devices_j_eq)

text \<open>
  The whole loop, for a controller that takes every switch and then answers with a main
  keyboard whose keymap is the name \<open>nms ! k\<close> of the index switched to.
\<close>

lemma scan_main:
  assumes "length nms = length ls"
    and "\<forall>k<length ls. \<forall>w. fst (switchxkblayout ctl (int (j + k)) w) \<and>
           (\<exists>resp kb. fst (devices ctl (snd (switchxkblayout ctl (int (j + k)) w))) = Devices resp
              \<and> find Main (Keyboards resp) = Some kb \<and> ActiveKeymap kb = nms ! k)"
  shows "\<exists>w'. scan ctl mainKb (enumerate j ls) res idx s =
     (Return (fold (\<lambda>(i, nm) r. r[i := nm]) (enumerate j nms) res,
              scan_idx (ActiveKeymap mainKb) j nms idx),
      (w', snd s @ scan_commands j (j + length ls)))"
  using assms
proof (induction ls arbitrary: nms j res idx s)
  case Nil
  then show ?case by (cases s) (simp add: scan_commands_def)
next
  case (Cons l ls)
  from Cons.prems(1) obtain nm nms' where nms: "nms = nm # nms'" "length nms' = length ls"
    by (cases nms) auto
  from Cons.prems(2) [rule_format, of 0 "fst s"] nms obtain resp kb where
    sw: "fst (switchxkblayout ctl (int j) (fst s))"
    and dv: "fst (devices ctl (snd (switchxkblayout ctl (int j) (fst s)))) = Devices resp"
    and mn: "find Main (Keyboards resp) = Some kb" and nm: "ActiveKeymap kb = nm"
    by auto
  have rest: "\<forall>k<length ls. \<forall>w. fst (switchxkblayout ctl (int (Suc j + k)) w) \<and>
           (\<exists>resp kb. fst (devices ctl (snd (switchxkblayout ctl (int (Suc j + k)) w))) = Devices resp
              \<and> find Main (Keyboards resp) = Some kb \<and> ActiveKeymap kb = nms' ! k)"
  proof (intro allI impI)
    fix k w assume "k < length ls"
    then have "Suc k < length (l # ls)" by simp
    from Cons.prems(2) [rule_format, OF this, of w] nms
    show "fst (switchxkblayout ctl (int (Suc j + k)) w) \<and>
           (\<exists>resp kb. fst (devices ctl (snd (switchxkblayout ctl (int (Suc j + k)) w))) = Devices resp
              \<and> find Main (Keyboards resp) = Some kb \<and> ActiveKeymap kb = nms' ! k)"
      by simp
  qed
  from Cons.IH [OF nms(2) rest] obtain w' where
    "scan ctl mainKb (enumerate (Suc j) ls) (res[j := nm])
       (if nm = ActiveKeymap mainKb then int j else idx)
       (snd (devices ctl (snd (switchxkblayout ctl (int j) (fst s)))),
        snd s @ [Switch (int j), Query]) =
     (Return (fold (\<lambda>(i, nm) r. r[i := nm]) (enumerate (Suc j) nms') (res[j := nm]),
              scan_idx (ActiveKeymap mainKb) (Suc j) nms'
                (if nm = ActiveKeymap mainKb then int j else idx)),
      (w', snd (snd (devices ctl (snd (switchxkblayout ctl (int j) (fst s)))),
        snd s @ [Switch (int j), Query]) @ scan_commands (Suc j) (Suc j + length ls)))"
    by blast
  then show ?case
    using scan_step_main [OF sw dv mn] nm nms scan_commands_step [of j "length ls"]
    by simp
qed

text \<open>The whole loop when no answer has a keyboard flagged main: nothing is recorded.\<close>

lemma scan_no_main:
  assumes "\<forall>k<length ls. \<forall>w. fst (switchxkblayout ctl (int (j + k)) w) \<and>
           (\<exists>resp. fst (devices ctl (snd (switchxkblayout ctl (int (j + k)) w))) = Devices resp
              \<and> find Main (Keyboards resp) = None)"
  shows "\<exists>w'. scan ctl mainKb (enumerate j ls) res idx s =
     (Return (res, idx), (w', snd s @ scan_commands j (j + length ls)))"
  using assms
proof (induction ls arbitrary: j s)
  case Nil
  then show ?case by (cases s) (simp add: scan_commands_def)
next
  case (Cons l ls)
  from Cons.prems [rule_format, of 0 "fst s"] obtain resp where
    sw: "fst (switchxkblayout ctl (int j) (fst s))"
    and dv: "fst (devices ctl (snd (switchxkblayout ctl (int j) (fst s)))) = Devices resp"
    and mn: "find Main (Keyboards resp) = None"
    by auto
  have rest: "\<forall>k<length ls. \<forall>w. fst (switchxkblayout ctl (int (Suc j + k)) w) \<and>
           (\<exists>resp. fst (devices ctl (snd (switchxkblayout ctl (int (Suc j + k)) w))) = Devices resp
              \<and> find Main (Keyboards resp) = None)"
  proof (intro allI impI)
    fix k w assume "k < length ls"
    then have "Suc k < length (l # ls)" by simp
    from Cons.prems [rule_format, OF this, of w]
    show "fst (switchxkblayout ctl (int (Suc j + k)) w) \<and>
           (\<exists>resp. fst (devices ctl (snd (switchxkblayout ctl (int (Suc j + k)) w))) = Devices resp
              \<and> find Main (Keyboards resp) = None)"
      by simp
  qed
  from Cons.IH [OF rest] obtain w' where
    "scan ctl mainKb (enumerate (Suc j) ls) res idx
       (snd (devices ctl (snd (switchxkblayout ctl (int j) (fst s)))),
        snd s @ [Switch (int j), Query]) =
     (Return (res, idx),
      (w', snd (snd (devices ctl (snd (switchxkblayout ctl (int j) (fst s)))),
        snd s @ [Switch (int j), Query]) @ scan_commands (Suc j) (Suc j + length ls)))"
    by blast
  then show ?case
    using scan_step_no_main [OF sw dv mn] scan_commands_step [of j "length ls"]
    by simp
qed

lemma fold_update_all:
  "length res = j + length nms \<Longrightarrow>
     fold (\<lambda>(i, nm) r. r[i := nm]) (enumerate j nms) res = take j res @ nms"
proof (induction nms arbitrary: j res)
  case Nil
  then show ?case by simp
next
  case (Cons nm nms)
  then have "fold (\<lambda>(i, nm) r. r[i := nm]) (enumerate (Suc j) nms) (res[j := nm])
      = take (Suc j) (res[j := nm]) @ nms"
    by (intro Cons.IH) simp
  moreover have "take (Suc j) (res[j := nm]) = take j res @ [nm]"
    using Cons.prems by (simp add: take_Suc_conv_app_nth)
  ultimately show ?case by simp
qed

lemma scan_idx_absent: "key \<notin> set nms \<Longrightarrow> scan_idx key j nms idx = idx"
  by (induction nms arbitrary: j idx) auto

lemma scan_idx_present:
  "key \<in> set nms \<Longrightarrow>
     \<exists>p<length nms. nms ! p = key \<and> (\<forall>q<length nms. nms ! q = key \<longrightarrow> q \<le> p)
        \<and> scan_idx key j nms idx = int (j + p)"
proof (induction nms arbitrary: j idx)
  case Nil
  then show ?case by simp
next
  case (Cons nm nms)
  show ?case
  proof (cases "key \<in> set nms")
    case True
    from Cons.IH [OF True, of "Suc j" "if nm = key then int j else idx"] obtain p where
      p: "p < length nms" "nms ! p = key" "\<forall>q<length nms. nms ! q = key \<longrightarrow> q \<le> p"
        "scan_idx key (Suc j) nms (if nm = key then int j else idx) = int (Suc j + p)"
      by blast
    have "\<forall>q<length (nm # nms). (nm # nms) ! q = key \<longrightarrow> q \<le> Suc p"
    proof (intro allI impI)
      fix q assume "q < length (nm # nms)" "(nm # nms) ! q = key"
      then show "q \<le> Suc p" using p(3) by (cases q) auto
    qed
    with p show ?thesis by (intro exI [of _ "Suc p"]) simp
  next
    case False
    with Cons.prems have nm: "nm = key" by simp
    have "\<forall>q<length (nm # nms). (nm # nms) ! q = key \<longrightarrow> q \<le> 0"
    proof (intro allI impI)
      fix q assume "q < length (nm # nms)" "(nm # nms) ! q = key"
      then show "q \<le> 0" using False by (cases q) auto
    qed
    with nm False show ?thesis
      by (intro exI [of _ 0]) (simp add: scan_idx_absent)
  qed
qed

text \<open>\<open>ReadLayouts\<close> around a loop that has returned.\<close>

lemma ReadLayouts_scan:
  assumes "fst (devices ctl (fst s)) = Devices resp0" and "Keyboards resp0 \<noteq> []"
    and "mainKb = (case find Main (Keyboards resp0) of
                     None \<Rightarrow> hd (Keyboards resp0) | Some kb \<Rightarrow> kb)"
    and "scan ctl mainKb (enumerate 0 (Split (Layout mainKb) '',''))
           (replicate (length (Split (Layout mainKb) '','')) []) (- 1)
           (snd (devices ctl (fst s)), snd s @ [Query]) = (Return (res, idx), s2)"
  shows "ReadLayouts ctl s =
     (if idx = - 1 then (Return res, slog_Warn s2)
      else if \<not> fst (switchxkblayout ctl idx (fst s2))
           then (Fail RestoreFailed, (snd (switchxkblayout ctl idx (fst s2)), snd s2 @ [Switch idx]))
           else (Return res, (snd (switchxkblayout ctl idx (fst s2)), snd s2 @ [Switch idx])))"
proof -
  from assms(2) obtain kb0 kbs where k: "Keyboards resp0 = kb0 # kbs"
    by (cases "Keyboards resp0") auto
  then have "hd (Keyboards resp0) = kb0" by simp
  with assms(3) k have m: "(case find Main (kb0 # kbs) of None \<Rightarrow> kb0 | Some kb \<Rightarrow> kb) = mainKb"
    by (simp del: find.simps split: option.split)
  show ?thesis
    unfolding ReadLayouts_def hyprctl_devices_j_eq
    using assms(1) k assms(4)
    by (simp add: m Let_def SwitchXKBLayout_eq del: find.simps)
qed

text \<open>
  C5, as the code has it. Take a controller whose first answer has a keyboard, with \<open>n\<close>
  short names on the main one (the first one when none is flagged), and which takes every
  switch to an index \<open>i < n\<close> and then answers with a keyboard flagged main whose active
  keymap is \<open>names ! i\<close>. Then the discovery returns exactly \<open>names\<close>; it runs one query,
  then a switch and a query for each index in order, and then: when no name equals the
  keymap of the first answer, it logs the warning and issues no further command (the
  device stays on the last index); otherwise it switches to the last index whose name
  equals that keymap. When the names are pairwise distinct this is the only index with
  that name: the one that was active before.
\<close>

theorem discovery_round_trip:
  assumes "fst (devices ctl w) = Devices resp0" and "Keyboards resp0 \<noteq> []"
    and "mainKb = (case find Main (Keyboards resp0) of
                     None \<Rightarrow> hd (Keyboards resp0) | Some kb \<Rightarrow> kb)"
    and "length names = length (Split (Layout mainKb) '','')"
    and "\<forall>i<length names. \<forall>w'. fst (switchxkblayout ctl (int i) w') \<and>
           (\<exists>resp kb. fst (devices ctl (snd (switchxkblayout ctl (int i) w'))) = Devices resp
              \<and> find Main (Keyboards resp) = Some kb \<and> ActiveKeymap kb = names ! i)"
  shows "fst (ReadLayouts ctl (w, [])) = Return names
     \<and> (ActiveKeymap mainKb \<notin> set names \<longrightarrow>
          snd (snd (ReadLayouts ctl (w, []))) = Query # scan_commands 0 (length names) @ [Warn])
     \<and> (ActiveKeymap mainKb \<in> set names \<longrightarrow>
          (\<exists>j<length names. names ! j = ActiveKeymap mainKb
             \<and> (\<forall>i<length names. names ! i = ActiveKeymap mainKb \<longrightarrow> i \<le> j)
             \<and> (distinct names \<longrightarrow>
                  (\<forall>i<length names. names ! i = ActiveKeymap mainKb \<longrightarrow> i = j))
             \<and> snd (snd (ReadLayouts ctl (w, []))) =
                 Query # scan_commands 0 (length names) @ [Switch (int j)]))"
proof -
  let ?ls = "Split (Layout mainKb) '',''"
  let ?key = "ActiveKeymap mainKb"
  have h: "\<forall>k<length ?ls. \<forall>w'. fst (switchxkblayout ctl (int (0 + k)) w') \<and>
           (\<exists>resp kb. fst (devices ctl (snd (switchxkblayout ctl (int (0 + k)) w'))) = Devices resp
              \<and> find Main (Keyboards resp) = Some kb \<and> ActiveKeymap kb = names ! k)"
    using assms(4,5) by simp
  from scan_main [OF assms(4) h, of mainKb "replicate (length ?ls) []" "- 1"
      "(snd (devices ctl w), [Query])"]
  obtain w' where sc: "scan ctl mainKb (enumerate 0 ?ls) (replicate (length ?ls) []) (- 1)
        (snd (devices ctl (fst (w, []::effect list))), snd (w, []::effect list) @ [Query]) =
     (Return (fold (\<lambda>(i, nm) r. r[i := nm]) (enumerate 0 names) (replicate (length ?ls) []),
              scan_idx ?key 0 names (- 1)),
      (w', [Query] @ scan_commands 0 (length names)))"
    using assms(4) by auto
  have res: "fold (\<lambda>(i, nm) r. r[i := nm]) (enumerate 0 names) (replicate (length ?ls) []) = names"
    using fold_update_all [of "replicate (length ?ls) []" 0 names] assms(4) by simp
  have d: "fst (devices ctl (fst (w, []::effect list))) = Devices resp0" using assms(1) by simp
  note rl = ReadLayouts_scan [OF d assms(2) assms(3) sc, unfolded res]
  show ?thesis
  proof (cases "?key \<in> set names")
    case False
    then have "scan_idx ?key 0 names (- 1) = - 1" by (rule scan_idx_absent)
    with rl False show ?thesis by (simp add: slog_Warn_def)
  next
    case True
    from scan_idx_present [OF True, of 0 "- 1"] obtain p where
      p: "p < length names" "names ! p = ?key"
        "\<forall>q<length names. names ! q = ?key \<longrightarrow> q \<le> p"
        "scan_idx ?key 0 names (- 1) = int p"
      by auto
    from assms(5) p(1) have ok: "fst (switchxkblayout ctl (int p) w')" by blast
    have "fst (ReadLayouts ctl (w, [])) = Return names"
      and "snd (snd (ReadLayouts ctl (w, []))) =
                 Query # scan_commands 0 (length names) @ [Switch (int p)]"
      using rl p(4) ok by simp_all
    moreover have "distinct names \<longrightarrow>
        (\<forall>i<length names. names ! i = ?key \<longrightarrow> i = p)"
    proof (intro impI allI)
      fix i assume "distinct names" and "i < length names" and "names ! i = ?key"
      with p(1,2) nth_eq_iff_index_eq [of names i p] show "i = p" by simp
    qed
    ultimately show ?thesis using True p(1,2,3) by blast
  qed
qed

text \<open>
  The theorem on a keyboard with three layouts, the second active: the three names come
  back and the last command switches to index 1 again.
\<close>

theorem discovery_round_trip_witness:
  "fst (ReadLayouts (sim_hyprctl ''us,ru,de'' [''English (US)'', ''Russian'', ''German''] True)
          (1, [])) = Return [''English (US)'', ''Russian'', ''German'']
   \<and> snd (snd (ReadLayouts
          (sim_hyprctl ''us,ru,de'' [''English (US)'', ''Russian'', ''German''] True) (1, [])))
       = [Query, Switch 0, Query, Switch 1, Query, Switch 2, Query, Switch 1]"
proof -
  let ?names = "[''English (US)'', ''Russian'', ''German'']"
  let ?ctl = "sim_hyprctl ''us,ru,de'' ?names True"
  let ?kb = "\<lparr>Layout = ''us,ru,de'', ActiveKeymap = ''Russian'', Main = True, KbName = ''kbd''\<rparr>"
  have 1: "fst (devices ?ctl 1) = Devices \<lparr>Keyboards = [?kb]\<rparr>"
    by (simp add: sim_hyprctl_def)
  have 2: "Keyboards \<lparr>Keyboards = [?kb]\<rparr> \<noteq> []" by simp
  have 3: "?kb = (case find Main (Keyboards \<lparr>Keyboards = [?kb]\<rparr>) of
                     None \<Rightarrow> hd (Keyboards \<lparr>Keyboards = [?kb]\<rparr>) | Some kb \<Rightarrow> kb)"
    by simp
  have 4: "length ?names = length (Split (Layout ?kb) '','')"
    by (simp add: Split.simps)
  have 5: "\<forall>i<length ?names. \<forall>w'. fst (switchxkblayout ?ctl (int i) w') \<and>
           (\<exists>resp kb. fst (devices ?ctl (snd (switchxkblayout ?ctl (int i) w'))) = Devices resp
              \<and> find Main (Keyboards resp) = Some kb \<and> ActiveKeymap kb = ?names ! i)"
    by (simp add: sim_hyprctl_def)
  have in_names: "ActiveKeymap ?kb \<in> set ?names" by simp
  from discovery_round_trip [OF 1 2 3 4 5] in_names
  obtain j where r: "fst (ReadLayouts ?ctl (1, [])) = Return ?names"
    and j: "j < length ?names" "?names ! j = ActiveKeymap ?kb"
    and t: "snd (snd (ReadLayouts ?ctl (1, []))) =
                 Query # scan_commands 0 (length ?names) @ [Switch (int j)]"
    by blast
  from j have "j = 1"
    by (cases j) (auto simp: less_Suc_eq nth_Cons')
  with r t show ?thesis
    by (simp add: scan_commands_def upt_rec [of 0] upt_rec [of 1] upt_rec [of 2])
qed

text \<open>
  C5 as claimed (the device is switched back to the index that was active before) fails
  when two indices report the same keymap name: with index 0 active before, the device is
  left on index 1.
\<close>

theorem discovery_duplicate_names_counterexample:
  "ReadLayouts (sim_hyprctl ''us,us'' [''English (US)'', ''English (US)''] True) (0, [])
     = (Return [''English (US)'', ''English (US)''],
        1, [Query, Switch 0, Query, Switch 1, Query, Switch 1])"
  by (simp add: ReadLayouts_def sim_hyprctl_def hyprctl_devices_j_eq SwitchXKBLayout_eq
      Split.simps slog_Warn_def Let_def enumerate_eq_zip upt_rec [of 0] upt_rec [of 1])

text \<open>
  C10. When the first answer has keyboards but none flagged main, the short names are
  those of the first keyboard; when, further, every switch is taken and no later answer
  has a keyboard flagged main, the discovery returns the list of \<open>n\<close> empty strings, and
  after the scan it logs the warning: it never switches back.
\<close>

theorem discovery_without_main:
  assumes "fst (devices ctl w) = Devices resp0" and "Keyboards resp0 = kb0 # kbs"
    and "find Main (Keyboards resp0) = None"
    and "n = length (Split (Layout kb0) '','')"
    and "\<forall>i<n. \<forall>w'. fst (switchxkblayout ctl (int i) w') \<and>
           (\<exists>resp. fst (devices ctl (snd (switchxkblayout ctl (int i) w'))) = Devices resp
              \<and> find Main (Keyboards resp) = None)"
  shows "fst (ReadLayouts ctl (w, [])) = Return (replicate n [])
     \<and> snd (snd (ReadLayouts ctl (w, []))) = Query # scan_commands 0 n @ [Warn]"
proof -
  let ?ls = "Split (Layout kb0) '',''"
  have h: "\<forall>k<length ?ls. \<forall>w'. fst (switchxkblayout ctl (int (0 + k)) w') \<and>
           (\<exists>resp. fst (devices ctl (snd (switchxkblayout ctl (int (0 + k)) w'))) = Devices resp
              \<and> find Main (Keyboards resp) = None)"
    using assms(4,5) by simp
  from scan_no_main [OF h, of kb0 "replicate (length ?ls) []" "- 1"
      "(snd (devices ctl w), [Query])"]
  obtain w' where sc: "scan ctl kb0 (enumerate 0 ?ls) (replicate (length ?ls) []) (- 1)
        (snd (devices ctl (fst (w, []::effect list))), snd (w, []::effect list) @ [Query]) =
     (Return (replicate (length ?ls) [], - 1), (w', [Query] @ scan_commands 0 (length ?ls)))"
    by auto
  have d: "fst (devices ctl (fst (w, []::effect list))) = Devices resp0" using assms(1) by simp
  have ne: "Keyboards resp0 \<noteq> []" using assms(2) by simp
  have mk: "kb0 = (case find Main (Keyboards resp0) of
                     None \<Rightarrow> hd (Keyboards resp0) | Some kb \<Rightarrow> kb)"
    using assms(2,3) by simp
  from ReadLayouts_scan [OF d ne mk sc] assms(4) show ?thesis
    by (simp add: slog_Warn_def)
qed

text \<open>The theorem on a keyboard with three layouts that is not flagged main.\<close>

theorem discovery_without_main_witness:
  "fst (ReadLayouts (sim_hyprctl ''us,ru,de'' [''English (US)'', ''Russian'', ''German''] False)
          (1, [])) = Return [[], [], []]
   \<and> snd (snd (ReadLayouts
          (sim_hyprctl ''us,ru,de'' [''English (US)'', ''Russian'', ''German''] False) (1, [])))
       = [Query, Switch 0, Query, Switch 1, Query, Switch 2, Query, Warn]"
proof -
  let ?names = "[''English (US)'', ''Russian'', ''German'']"
  let ?ctl = "sim_hyprctl ''us,ru,de'' ?names False"
  let ?kb = "\<lparr>Layout = ''us,ru,de'', ActiveKeymap = ''Russian'', Main = False, KbName = ''kbd''\<rparr>"
  have 1: "fst (devices ?ctl 1) = Devices \<lparr>Keyboards = [?kb]\<rparr>"
    by (simp add: sim_hyprctl_def)
  have 2: "Keyboards \<lparr>Keyboards = [?kb]\<rparr> = ?kb # []" by simp
  have 3: "find Main (Keyboards \<lparr>Keyboards = [?kb]\<rparr>) = None" by simp
  have 4: "3 = length (Split (Layout ?kb) '','')"
    by (simp add: Split.simps)
  have 5: "\<forall>i<3. \<forall>w'. fst (switchxkblayout ?ctl (int i) w') \<and>
           (\<exists>resp. fst (devices ?ctl (snd (switchxkblayout ?ctl (int i) w'))) = Devices resp
              \<and> find Main (Keyboards resp) = None)"
    by (simp add: sim_hyprctl_def)
  from discovery_without_main [OF 1 2 3 4 5] show ?thesis
    by (simp add: scan_commands_def upt_rec [of 0] upt_rec [of 1] upt_rec [of 2]
        numeral_3_eq_3)
qed

section \<open>Properties of the tracker\<close>

text \<open>The event loop at the end of the stream, and around one event read.\<close>

lemma event_loop_end:
  "\<not> closed c \<Longrightarrow> reader c = [] \<Longrightarrow>
     event_loop ctl reset l2i c t r s = (Fail (ReadEventFailed ReadFailed), t, r, s)"
  by (subst event_loop.simps) (simp add: ReadEvent_def)


text \<open>The focus event for another window than the current one.\<close>

lemma on_focus_new:
  "Name evt = ''activewindowv2'' \<Longrightarrow> Args evt \<noteq> [] \<Longrightarrow>
   last (Args evt) \<noteq> currentWindowId t \<Longrightarrow>
   target = (case layoutMap t (last (Args evt)) of None \<Rightarrow> defaultLayout | Some v \<Rightarrow> v) \<Longrightarrow>
   on_event ctl l2i evt t s =
     (if target = currentLayout t then (Return (), t\<lparr>currentWindowId := last (Args evt)\<rparr>, s)
      else ((if fst (switchxkblayout ctl target (fst s)) then Return () else Fail ActivateFailed),
            t\<lparr>currentWindowId := last (Args evt)\<rparr>,
            (snd (switchxkblayout ctl target (fst s)), snd s @ [Switch target])))"
  by (simp add: on_event_def Let_def SwitchXKBLayout_eq)

text \<open>
  C1, as the code has it. With the layout table of \<^verbatim>\<open>en\<close> at 0 and \<^verbatim>\<open>us\<close> at 1, from the
  initial tracker, on every controller that takes the switch to 0: the commands issued
  when the stream ends after none, one, two, three and all four of the events. There are
  two commands: a switch to 0 on the first focus of W1 and a switch to 0 on the focus of
  W2; the refocus of W1 issues none, since \<^verbatim>\<open>currentLayout\<close> is still the 1 that the
  layout event wrote (a switch does not write it).
\<close>

theorem focus_sequence_commands:
  assumes "\<forall>w. fst (switchxkblayout ctl 0 w)"
  shows "map (\<lambda>k. commands_issued
            (event_loop ctl reset (make_layoutToIndex [''en'', ''us''])
               \<lparr>closed = False, reader = take k focus_events\<rparr> initial_tracker r (w, [])))
           [0, 1, 2, 3, 4]
         = [[], [Switch 0], [Switch 0], [Switch 0, Switch 0], [Switch 0, Switch 0]]"
  using assms
  by (simp add: commands_issued_def focus_events_def
      event_loop.simps ReadEvent_def Split.simps on_event_def SwitchXKBLayout_eq
      make_layoutToIndex_def map_index_def initial_tracker_def defaultLayout_def Let_def)

text \<open>The theorem on the keyboard with the two layouts.\<close>

theorem focus_sequence_commands_witness:
  "map (\<lambda>k. commands_issued
            (event_loop en_us_hyprctl resetRetry (make_layoutToIndex [''en'', ''us''])
               \<lparr>closed = False, reader = take k focus_events\<rparr> initial_tracker (0::int) (1, [])))
           [0, 1, 2, 3, 4]
         = [[], [Switch 0], [Switch 0], [Switch 0, Switch 0], [Switch 0, Switch 0]]"
proof -
  have "\<forall>w. fst (switchxkblayout en_us_hyprctl 0 w)"
    by (simp add: en_us_hyprctl_def sim_hyprctl_def)
  then show ?thesis by (rule focus_sequence_commands)
qed

text \<open>
  C1 as claimed (three commands, the last a switch to 1 on the refocus of W1) fails: the
  run issues the two switches to 0 only.
\<close>

theorem focus_sequence_counterexample:
  "commands_issued
     (event_loop en_us_hyprctl resetRetry (make_layoutToIndex [''en'', ''us''])
        \<lparr>closed = False, reader = focus_events\<rparr> initial_tracker 0 (0, []))
   = [Switch 0, Switch 0]"
  by (simp add: commands_issued_def focus_events_def en_us_hyprctl_def sim_hyprctl_def
      event_loop.simps ReadEvent_def Split.simps on_event_def SwitchXKBLayout_eq
      make_layoutToIndex_def map_index_def initial_tracker_def defaultLayout_def Let_def)

text \<open>
  C3, as the code has it. A focus event for a window other than the current one, whose
  layout (the one stored for it, the default otherwise) differs from \<^verbatim>\<open>currentLayout\<close>:
  the tracker makes the window current and issues the one switch to that layout. When the
  command succeeds the loop goes on, when it fails the loop returns the error; in both
  cases \<^verbatim>\<open>currentLayout\<close> and the window map are as before the event.
\<close>

theorem focus_switch:
  assumes "Name evt = ''activewindowv2''" and "Args evt \<noteq> []"
    and "last (Args evt) \<noteq> currentWindowId t"
    and "target = (case layoutMap t (last (Args evt)) of
                     None \<Rightarrow> defaultLayout | Some v \<Rightarrow> v)"
    and "target \<noteq> currentLayout t"
  shows "on_event ctl l2i evt t s =
     ((if fst (switchxkblayout ctl target (fst s)) then Return () else Fail ActivateFailed),
      t\<lparr>currentWindowId := last (Args evt)\<rparr>,
      (snd (switchxkblayout ctl target (fst s)), snd s @ [Switch target]))
   \<and> currentLayout (fst (snd (on_event ctl l2i evt t s))) = currentLayout t
   \<and> layoutMap (fst (snd (on_event ctl l2i evt t s))) = layoutMap t"
proof -
  from assms(3) have "currentWindowId t \<noteq> last (Args evt)" by simp
  with assms(1,2,4,5) have "on_event ctl l2i evt t s =
     ((if fst (switchxkblayout ctl target (fst s)) then Return () else Fail ActivateFailed),
      t\<lparr>currentWindowId := last (Args evt)\<rparr>,
      (snd (switchxkblayout ctl target (fst s)), snd s @ [Switch target]))"
    by (simp add: on_focus_new)
  then show ?thesis by simp
qed

text \<open>
  The theorem on the first focus of a window, with the second layout active: the switch to
  0 is taken, and \<^verbatim>\<open>currentLayout\<close> is still unset.
\<close>

theorem focus_switch_witness:
  "on_event en_us_hyprctl (make_layoutToIndex [''en'', ''us''])
     \<lparr>Name = ''activewindowv2'', Args = [''W1'']\<rparr> initial_tracker (1, [])
   = (Return (), initial_tracker\<lparr>currentWindowId := ''W1''\<rparr>, (0, [Switch 0]))"
proof -
  have "last (Args \<lparr>Name = ''activewindowv2'', Args = [''W1'']\<rparr>)
          \<noteq> currentWindowId initial_tracker"
    and "(0::int) = (case layoutMap initial_tracker
                        (last (Args \<lparr>Name = ''activewindowv2'', Args = [''W1'']\<rparr>)) of
                     None \<Rightarrow> defaultLayout | Some v \<Rightarrow> v)"
    and "0 \<noteq> currentLayout initial_tracker"
    by (simp_all add: initial_tracker_def defaultLayout_def)
  then show ?thesis
    using focus_switch [of "\<lparr>Name = ''activewindowv2'', Args = [''W1'']\<rparr>" initial_tracker 0
        en_us_hyprctl "make_layoutToIndex [''en'', ''us'']" "(1, [])"]
    by (simp add: en_us_hyprctl_def sim_hyprctl_def)
qed

text \<open>
  C3 as claimed (\<^verbatim>\<open>currentLayout\<close> becomes the target once the command has succeeded) fails:
  after the successful switch to 0 it is still the \<open>-1\<close> of the start.
\<close>

theorem focus_switch_counterexample:
  "fst (on_event en_us_hyprctl (make_layoutToIndex [''en'', ''us''])
          \<lparr>Name = ''activewindowv2'', Args = [''W1'']\<rparr> initial_tracker (1, [])) = Return ()
   \<and> snd (snd (on_event en_us_hyprctl (make_layoutToIndex [''en'', ''us''])
          \<lparr>Name = ''activewindowv2'', Args = [''W1'']\<rparr> initial_tracker (1, [])))
       = (0, [Switch 0])
   \<and> currentLayout (fst (snd (on_event en_us_hyprctl (make_layoutToIndex [''en'', ''us''])
          \<lparr>Name = ''activewindowv2'', Args = [''W1'']\<rparr> initial_tracker (1, [])))) = - 1"
  by (simp add: on_event_def en_us_hyprctl_def sim_hyprctl_def SwitchXKBLayout_eq
      initial_tracker_def defaultLayout_def Let_def)

text \<open>
  C8. Two focus events in a row that carry the same window id: whatever the tracker was
  before the first, once the first has been handled the second issues no command and
  leaves the tracker and the controller as they are.
\<close>

theorem duplicate_focus_noop:
  assumes "Name e1 = ''activewindowv2''" and "Name e2 = ''activewindowv2''"
    and "Args e1 \<noteq> []" and "Args e2 \<noteq> []" and "last (Args e2) = last (Args e1)"
    and "on_event ctl l2i e1 t s = (Return (), t', s')"
  shows "on_event ctl l2i e2 t' s' = (Return (), t', s')"
proof -
  have "currentWindowId t' = last (Args e1)"
    using assms(1,3,6)
    by (auto simp: on_event_def Let_def SwitchXKBLayout_eq split: if_splits)
  with assms(2,4,5) show ?thesis
    by (simp add: on_event_def)
qed

text \<open>The theorem on the first focus of a window and its repetition.\<close>

theorem duplicate_focus_noop_witness:
  "on_event en_us_hyprctl (make_layoutToIndex [''en'', ''us''])
     \<lparr>Name = ''activewindowv2'', Args = [''W1'']\<rparr>
     (initial_tracker\<lparr>currentWindowId := ''W1''\<rparr>) (0, [Switch 0])
   = (Return (), initial_tracker\<lparr>currentWindowId := ''W1''\<rparr>, (0, [Switch 0]))"
proof -
  have "on_event en_us_hyprctl (make_layoutToIndex [''en'', ''us''])
     \<lparr>Name = ''activewindowv2'', Args = [''W1'']\<rparr> initial_tracker (1, [])
   = (Return (), initial_tracker\<lparr>currentWindowId := ''W1''\<rparr>, (0, [Switch 0]))"
    by (simp add: on_event_def en_us_hyprctl_def sim_hyprctl_def SwitchXKBLayout_eq
        initial_tracker_def defaultLayout_def Let_def)
  then show ?thesis
    by (intro duplicate_focus_noop
        [of "\<lparr>Name = ''activewindowv2'', Args = [''W1'']\<rparr>" _ _ _ initial_tracker "(1, [])"])
      simp_all
qed

section \<open>Properties of the retry loop\<close>

text \<open>An attempt without the session signature fails at once, with nothing done.\<close>

lemma process_no_signature:
  "HYPRLAND_INSTANCE_SIGNATURE env = None \<Longrightarrow>
     processHyprlandEvents ctl reset env r s = (Fail (CouldNotConnect NoInstance), r, s)"
  by (simp add: processHyprlandEvents_def NewClient_def)

text \<open>
  The retry loop after an attempt that has returned an error, and over a run of attempts
  that fail before an event is read (they leave \<^verbatim>\<open>retry\<close> as it is).
\<close>

lemma main_loop_Fail:
  assumes "processHyprlandEvents ctl resetRetry env r (w, []) = (Fail e, r', s')"
  shows "main_loop ctl ((env, w) # rest) r =
     (if 4 \<le> r' then ([], Panicked e)
      else if r' < 0 then ([], Crashed)
      else (retryWait ! nat r' # fst (main_loop ctl rest (r' + 1)),
            snd (main_loop ctl rest (r' + 1))))"
  using assms by (simp add: retryWait_def split_beta)

lemma retryWait_drop:
  "0 \<le> r \<Longrightarrow> r < 4 \<Longrightarrow>
     drop (nat r) retryWait = retryWait ! nat r # drop (nat (r + 1)) retryWait"
proof -
  assume "0 \<le> r" "r < 4"
  then have "nat r < length retryWait" and "nat (r + 1) = Suc (nat r)"
    by (simp_all add: retryWait_def)
  then show ?thesis by (simp add: Cons_nth_drop_Suc)
qed

lemma main_loop_failures:
  assumes "\<forall>a\<in>set attempts. \<forall>r. \<exists>e s'.
             processHyprlandEvents ctl resetRetry (fst a) r (snd a, []) = (Fail e, r, s')"
    and "0 \<le> r" and "r + int (length attempts) \<le> 4"
  shows "main_loop ctl (attempts @ later) r =
     (take (length attempts) (drop (nat r) retryWait)
        @ fst (main_loop ctl later (r + int (length attempts))),
      snd (main_loop ctl later (r + int (length attempts))))"
  using assms
proof (induction attempts arbitrary: r)
  case Nil
  then show ?case by simp
next
  case (Cons a as)
  obtain env w where a: "a = (env, w)" by (cases a)
  from Cons.prems(1) a obtain e s' where
    p: "processHyprlandEvents ctl resetRetry env r (w, []) = (Fail e, r, s')"
    by fastforce
  from Cons.prems have r: "0 \<le> r" "r < 4" by simp_all
  have ih: "main_loop ctl (as @ later) (r + 1) =
     (take (length as) (drop (nat (r + 1)) retryWait)
        @ fst (main_loop ctl later (r + 1 + int (length as))),
      snd (main_loop ctl later (r + 1 + int (length as))))"
    using Cons.prems by (intro Cons.IH) simp_all
  have eq: "r + 1 + int (length as) = r + int (length (a # as))" by simp
  show ?case
    unfolding a append_Cons main_loop_Fail [OF p] ih
    using r retryWait_drop [OF r] by (simp add: algebra_simps)
qed









text \<open>
  C7, as the code has it. An attempt without the session signature fails at the
  connection, before the discovery and before any event: it issues no command and leaves
  \<^verbatim>\<open>retry\<close> as it is. The retry loop treats it as any failed attempt: while the
  signature is missing it waits 0.5s, 1s, 2s and 4s after the first four attempts and
  panics with the error at the fifth.
\<close>

theorem missing_signature_retried:
  assumes "\<forall>a\<in>set attempts. HYPRLAND_INSTANCE_SIGNATURE (fst a) = None"
  shows "(\<forall>a\<in>set attempts. \<forall>r s.
            processHyprlandEvents ctl resetRetry (fst a) r s
              = (Fail (CouldNotConnect NoInstance), r, s))
     \<and> (length attempts \<le> 4 \<longrightarrow>
           main ctl True attempts =
             (take (length attempts) retryWait, Running (int (length attempts))))
     \<and> (length attempts = 4 \<and> HYPRLAND_INSTANCE_SIGNATURE (fst x) = None \<longrightarrow>
           main ctl True (attempts @ x # later) =
             (retryWait, Panicked (CouldNotConnect NoInstance)))"
proof (intro conjI impI ballI allI)
  fix a r and s :: "'a sys"
  assume "a \<in> set attempts"
  with assms show "processHyprlandEvents ctl resetRetry (fst a) r s
              = (Fail (CouldNotConnect NoInstance), r, s)"
    by (simp add: process_no_signature)
next
  have f: "\<forall>a\<in>set attempts. \<forall>r. \<exists>e s'.
             processHyprlandEvents ctl resetRetry (fst a) r (snd a, []) = (Fail e, r, s')"
    using assms by (simp add: process_no_signature)
  assume "length attempts \<le> 4"
  then have k: "(0::int) \<le> 0" "0 + int (length attempts) \<le> 4" by simp_all
  from main_loop_failures [OF f k, of "[]"]
  show "main ctl True attempts =
             (take (length attempts) retryWait, Running (int (length attempts)))"
    by (simp add: main_def)
next
  have f: "\<forall>a\<in>set attempts. \<forall>r. \<exists>e s'.
             processHyprlandEvents ctl resetRetry (fst a) r (snd a, []) = (Fail e, r, s')"
    using assms by (simp add: process_no_signature)
  assume a: "length attempts = 4 \<and> HYPRLAND_INSTANCE_SIGNATURE (fst x) = None"
  then have k: "(0::int) \<le> 0" "0 + int (length attempts) \<le> 4" by simp_all
  obtain env w where x: "x = (env, w)" by (cases x)
  with a have p: "processHyprlandEvents ctl resetRetry env 4 (w, [])
      = (Fail (CouldNotConnect NoInstance), 4, (w, []))"
    by (simp add: process_no_signature)
  from main_loop_Fail [OF p, of later]
  have "main_loop ctl (x # later) 4 = ([], Panicked (CouldNotConnect NoInstance))"
    by (simp add: x)
  with main_loop_failures [OF f k, of "x # later"] a
  show "main ctl True (attempts @ x # later) =
             (retryWait, Panicked (CouldNotConnect NoInstance))"
    by (simp add: main_def retryWait_def)
qed

text \<open>The theorem on five attempts without the signature.\<close>

theorem missing_signature_retried_witness:
  "main en_us_hyprctl True (replicate 4 (no_instance_env, 0) @ [(no_instance_env, 0)]) =
     ([500000000, 1000000000, 2000000000, 4000000000], Panicked (CouldNotConnect NoInstance))"
proof -
  have "\<forall>a\<in>set (replicate 4 (no_instance_env, 0::nat)).
          HYPRLAND_INSTANCE_SIGNATURE (fst a) = None"
    by (simp add: no_instance_env_def)
  from missing_signature_retried [OF this, where x = "(no_instance_env, 0)"
      and ctl = en_us_hyprctl and later = "[]"]
  show ?thesis
    by (simp add: no_instance_env_def retryWait_def Millisecond_def Second_def)
qed

text \<open>
  C7 as claimed (the missing signature is never retried, no backoff is applied to it)
  fails: after the first attempt without the signature the loop waits 0.5s and starts the
  second, waits 1s after that one, and is about to start a third.
\<close>

theorem missing_signature_counterexample:
  "main en_us_hyprctl True [(no_instance_env, 0), (no_instance_env, 0)] =
     ([500000000, 1000000000], Running 2)"
  by (simp add: main_def processHyprlandEvents_def NewClient_def no_instance_env_def
      retryWait_def Millisecond_def Second_def)

end
